theory Spec2Isabelle
  imports Complex_Main
begin

section \<open>Values produced by \<^verbatim>\<open>json.loads\<close>\<close>

text \<open>
  The streaming client of \<^verbatim>\<open>okx.py\<close> works on whatever \<^verbatim>\<open>json.loads\<close> returns for an
  inbound frame. \<open>JNull\<close> is Python's \<^verbatim>\<open>None\<close>; an integer literal gives a Python
  \<^verbatim>\<open>int\<close>; any other number literal gives a \<^verbatim>\<open>float\<close>, kept as the rational number that
  the float is (the constants \<^verbatim>\<open>NaN\<close> and \<^verbatim>\<open>Infinity\<close>, which \<^verbatim>\<open>json.loads\<close> accepts beyond
  JSON, are not represented); an object gives a \<^verbatim>\<open>dict\<close>, kept as an association list in
  insertion order with \<open>map_of\<close> as its lookup.
\<close>

datatype json =
    JNull
  | JBool bool
  | JInt int
  | JFloat rat
  | JStr string
  | JArr "json list"
  | JObj "(string \<times> json) list"

text \<open>
  The exceptions raised in the client. \<open>ConnectionError\<close> stands for whatever the
  transport raises (refused connection, abnormal close, failed send), \<open>OverflowError\<close>
  for what \<^verbatim>\<open>epoch_ms / 1000\<close>, \<^verbatim>\<open>time.gmtime\<close> and \<^verbatim>\<open>time.strftime\<close> raise on a time out
  of their range, \<open>ValueError\<close> for what formatting a value into a string raises. All are
  subclasses of \<^verbatim>\<open>Exception\<close> but \<^verbatim>\<open>asyncio.CancelledError\<close>, which derives from
  \<^verbatim>\<open>BaseException\<close> (Python 3.8 and later): neither \<^verbatim>\<open>except Exception\<close> nor
  \<^verbatim>\<open>contextlib.suppress(Exception)\<close> stops it.
\<close>

datatype exc =
    AssertionError
  | AttributeError
  | TypeError
  | KeyError
  | ConnectionError
  | OverflowError
  | ValueError
  | CancelledError

fun is_exception :: "exc \<Rightarrow> bool" where
  "is_exception CancelledError = False"
| "is_exception _ = True"

text \<open>\<^verbatim>\<open>not x\<close> is the negation of Python's truth value.\<close>

fun truthy :: "json \<Rightarrow> bool" where
  "truthy JNull = False"
| "truthy (JBool b) = b"
| "truthy (JInt i) = (i \<noteq> 0)"
| "truthy (JFloat q) = (q \<noteq> 0)"
| "truthy (JStr s) = (s \<noteq> [])"
| "truthy (JArr xs) = (xs \<noteq> [])"
| "truthy (JObj kvs) = (kvs \<noteq> [])"

text \<open>\<^verbatim>\<open>d.get(k)\<close> on a dict: the value, or \<^verbatim>\<open>None\<close> when the key is absent.\<close>

definition dict_get :: "(string \<times> json) list \<Rightarrow> string \<Rightarrow> json" where
  "dict_get kvs k = (case map_of kvs k of None \<Rightarrow> JNull | Some v \<Rightarrow> v)"

text \<open>
  \<^verbatim>\<open>x.get(k)\<close> on any value: only a dict has the method, every other value raises
  \<^verbatim>\<open>AttributeError\<close>.
\<close>

fun py_get :: "json \<Rightarrow> string \<Rightarrow> exc + json" where
  "py_get (JObj kvs) k = Inr (dict_get kvs k)"
| "py_get _ k = Inl AttributeError"

fun is_dict :: "json \<Rightarrow> bool" where
  "is_dict (JObj kvs) = True"
| "is_dict _ = False"

text \<open>Lists and dicts are unhashable: hashing one raises \<^verbatim>\<open>TypeError\<close>.\<close>

fun hashable :: "json \<Rightarrow> bool" where
  "hashable (JArr xs) = False"
| "hashable (JObj kvs) = False"
| "hashable _ = True"

text \<open>
  Python's \<^verbatim>\<open>==\<close> on hashable values: \<^verbatim>\<open>bool\<close>, \<^verbatim>\<open>int\<close> and \<^verbatim>\<open>float\<close> compare by
  numeric value (\<^verbatim>\<open>True == 1 == 1.0\<close>), everything else by kind and content.
\<close>

fun num_val :: "json \<Rightarrow> rat option" where
  "num_val (JBool b) = Some (if b then 1 else 0)"
| "num_val (JInt i) = Some (of_int i)"
| "num_val (JFloat q) = Some q"
| "num_val _ = None"

definition py_eq :: "json \<Rightarrow> json \<Rightarrow> bool" where
  "py_eq a b =
     (case num_val a of
        Some x \<Rightarrow> (case num_val b of Some y \<Rightarrow> x = y | None \<Rightarrow> False)
      | None \<Rightarrow> (case num_val b of Some y \<Rightarrow> False | None \<Rightarrow> a = b))"

text \<open>
  \<^verbatim>\<open>msg.get("event") in {"pong", "subscribe", "error"}\<close>: membership in a set hashes the
  value first.
\<close>

definition control_events :: "string list" where
  "control_events = [''pong'', ''subscribe'', ''error'']"

definition in_control_events :: "json \<Rightarrow> exc + bool" where
  "in_control_events v =
     (if \<not> hashable v then Inl TypeError
      else Inr (\<exists>e \<in> set control_events. py_eq v (JStr e)))"

section \<open>The Buffer Store\<close>

text \<open>
  \<^verbatim>\<open>self._buffers\<close> is a dict from the tuple \<^verbatim>\<open>(inst_id, channel)\<close> to the list of buffered
  payloads. It is an association list in insertion order (the order in which
  \<^verbatim>\<open>buffers.items()\<close> iterates); a key is found by Python's tuple equality, and an entry
  keeps the key object it was created with.
\<close>

type_synonym buffer_key = "json \<times> json"

type_synonym buffers = "(buffer_key \<times> json list) list"

definition same_key :: "buffer_key \<Rightarrow> buffer_key \<Rightarrow> bool" where
  "same_key k k' = (py_eq (fst k) (fst k') \<and> py_eq (snd k) (snd k'))"

definition key_hashable :: "buffer_key \<Rightarrow> bool" where
  "key_hashable k = (hashable (fst k) \<and> hashable (snd k))"

fun buf_lookup :: "buffers \<Rightarrow> buffer_key \<Rightarrow> json list option" where
  "buf_lookup [] k = None"
| "buf_lookup ((k', v) # rest) k = (if same_key k' k then Some v else buf_lookup rest k)"

text \<open>\<^verbatim>\<open>buffers[k] = v\<close>: replaces the value of an existing entry, or adds a new last entry.\<close>

fun buf_assign :: "buffers \<Rightarrow> buffer_key \<Rightarrow> json list \<Rightarrow> buffers" where
  "buf_assign [] k v = [(k, v)]"
| "buf_assign ((k', v') # rest) k v =
     (if same_key k' k then (k', v) # rest else (k', v') # buf_assign rest k v)"

text \<open>\<^verbatim>\<open>buffers[k].append(x)\<close>: \<^verbatim>\<open>KeyError\<close> when the key is absent.\<close>

definition buf_append :: "buffers \<Rightarrow> buffer_key \<Rightarrow> json \<Rightarrow> exc + buffers" where
  "buf_append bufs k x =
     (case buf_lookup bufs k of
        None \<Rightarrow> Inl KeyError
      | Some v \<Rightarrow> Inr (buf_assign bufs k (v @ [x])))"

section \<open>The Message Classifier: \<^verbatim>\<open>_handle_message\<close>\<close>

text \<open>
  The payload dict built for a data frame. \<open>ts\<close> is the formatted reading of the clock
  (\<^verbatim>\<open>datetime.now(timezone.utc).strftime(...)\<close>) at the time the frame is handled.
\<close>

definition build_payload :: "json \<Rightarrow> json \<Rightarrow> string \<Rightarrow> json \<Rightarrow> json \<Rightarrow> json" where
  "build_payload inst_id channel ts data action =
     JObj ([(''instId'', inst_id),
            (''timestamp'', JStr ts),
            (''source'', JStr ''WS''),
            (''channel'', channel),
            (''data'', data)]
           @ (if action \<noteq> JNull then [(''action'', action)] else []))"

text \<open>
  An inbound frame is given by what \<^verbatim>\<open>json.loads(raw)\<close> does on it: \<open>None\<close> when it
  raises, \<open>Some msg\<close> when it returns \<open>msg\<close>. The result is \<open>Inr\<close> of the Buffer Store
  after the call when \<^verbatim>\<open>_handle_message\<close> returns, and \<open>Inl\<close> of the exception that
  leaves it otherwise (the store is then as it was: every raise precedes the first
  mutation).
\<close>

definition handle_message :: "buffers \<Rightarrow> string \<Rightarrow> json option \<Rightarrow> exc + buffers" where
  "handle_message bufs ts loaded =
     (case loaded of
        None \<Rightarrow> Inr bufs
      | Some msg \<Rightarrow>
          (case (if is_dict msg
                 then (case py_get msg ''event'' of
                         Inl e \<Rightarrow> Inl e
                       | Inr ev \<Rightarrow> in_control_events ev)
                 else Inr False) of
             Inl e \<Rightarrow> Inl e
           | Inr True \<Rightarrow> Inr bufs
           | Inr False \<Rightarrow>
               (case py_get msg ''arg'' of
                  Inl e \<Rightarrow> Inl e
                | Inr arg \<Rightarrow>
                    (case py_get msg ''data'' of
                       Inl e \<Rightarrow> Inl e
                     | Inr data \<Rightarrow>
                         (case py_get msg ''action'' of
                            Inl e \<Rightarrow> Inl e
                          | Inr action \<Rightarrow>
                              if \<not> truthy arg \<or> \<not> truthy data then Inr bufs
                              else
                                (case py_get arg ''channel'' of
                                   Inl e \<Rightarrow> Inl e
                                 | Inr channel \<Rightarrow>
                                     (case py_get arg ''instId'' of
                                        Inl e \<Rightarrow> Inl e
                                      | Inr inst_id \<Rightarrow>
                                          if \<not> key_hashable (inst_id, channel) then Inl TypeError
                                          else
                                            buf_append
                                              (if buf_lookup bufs (inst_id, channel) = None
                                               then buf_assign bufs (inst_id, channel) []
                                               else bufs)
                                              (inst_id, channel)
                                              (build_payload inst_id channel ts data action))))))))"

section \<open>The Rotating Writer: \<^verbatim>\<open>RollingJsonWriter\<close>\<close>

record writer_config =
  output_dir :: string
  file_rotate_seconds :: int

text \<open>
  Library functions the writer calls and that are not part of the repository, each with
  \<open>None\<close> where the library raises: \<open>strftime_compact\<close> is
  \<^verbatim>\<open>time.strftime("%Y%m%dT%H%M%S", time.gmtime(epoch_ms / 1000))\<close> as a function of
  \<^verbatim>\<open>epoch_ms\<close>, and \<open>format_other\<close> is the text an f-string gives for an int, a float, a
  list or a dict.
\<close>

record pylib =
  strftime_compact :: "int \<Rightarrow> string option"
  format_other :: "json \<Rightarrow> string option"

text \<open>What \<^verbatim>\<open>f"{x}"\<close> puts into a string for a value \<open>x\<close>.\<close>

fun py_format :: "pylib \<Rightarrow> json \<Rightarrow> exc + string" where
  "py_format lib JNull = Inr ''None''"
| "py_format lib (JBool b) = Inr (if b then ''True'' else ''False'')"
| "py_format lib (JStr s) = Inr s"
| "py_format lib v = (case format_other lib v of None \<Rightarrow> Inl ValueError | Some s \<Rightarrow> Inr s)"

text \<open>\<^verbatim>\<open>os.path.join(a, b)\<close> with two arguments, on POSIX.\<close>

definition path_join :: "string \<Rightarrow> string \<Rightarrow> string" where
  "path_join a b =
     (if b \<noteq> [] \<and> hd b = CHR ''/'' then b
      else if a = [] \<or> last a = CHR ''/'' then a @ b
      else a @ ''/'' @ b)"

text \<open>
  \<^verbatim>\<open>_build_filename\<close>: the timestamp first, then the f-string (instrument before channel),
  then the join. \<open>Inl\<close> is the exception it raises.
\<close>

definition build_filename ::
  "pylib \<Rightarrow> writer_config \<Rightarrow> json \<Rightarrow> json \<Rightarrow> int \<Rightarrow> exc + string" where
  "build_filename lib config inst_id channel epoch_ms =
     (case strftime_compact lib epoch_ms of
        None \<Rightarrow> Inl OverflowError
      | Some ts \<Rightarrow>
          (case py_format lib inst_id of
             Inl e \<Rightarrow> Inl e
           | Inr i \<Rightarrow>
               (case py_format lib channel of
                  Inl e \<Rightarrow> Inl e
                | Inr c \<Rightarrow>
                    Inr (path_join (output_dir config)
                           (i @ ''_'' @ c @ ''_'' @ ts @ ''.json'')))))"

text \<open>
  The file system, as far as the writer touches it. A file holds either the complete
  JSON text of a list of payloads, identified with that list (\<^verbatim>\<open>json.dump\<close> ran to its
  end), or whatever was written before \<^verbatim>\<open>json.dump\<close> raised. Different path strings can
  name one file (\<^verbatim>\<open>x\<close> and \<^verbatim>\<open>./x\<close>, a link): \<open>resolve\<close> gives the file a path names, and
  files are kept by what \<open>resolve\<close> gives. \<open>opened\<close> lists the files that
  \<^verbatim>\<open>open(path, "w")\<close> has opened, oldest first, and \<open>write_count\<close> counts the writes
  attempted so far. The environment decides how each attempt goes, from its number, the
  path and the list to be written.
\<close>

datatype content = Complete "json list" | Partial

datatype write_outcome = WriteOk | OpenRaises | DumpRaises

record fsenv =
  outcome :: "nat \<Rightarrow> string \<Rightarrow> json list \<Rightarrow> write_outcome"
  resolve :: "string \<Rightarrow> string"

record disk =
  files :: "string \<rightharpoonup> content"
  opened :: "string list"
  write_count :: nat

text \<open>
  \<^verbatim>\<open>with open(path, "w", encoding="utf-8") as f: json.dump(messages, f, ...)\<close> inside the
  \<^verbatim>\<open>try\<close>, whose handler prints the exception.
\<close>

definition write_file :: "fsenv \<Rightarrow> disk \<Rightarrow> string \<Rightarrow> json list \<Rightarrow> disk" where
  "write_file env d path messages =
     (case outcome env (write_count d) path messages of
        WriteOk \<Rightarrow>
          d\<lparr>files := (files d)(resolve env path \<mapsto> Complete messages),
            opened := opened d @ [resolve env path],
            write_count := Suc (write_count d)\<rparr>
      | OpenRaises \<Rightarrow> d\<lparr>write_count := Suc (write_count d)\<rparr>
      | DumpRaises \<Rightarrow>
          d\<lparr>files := (files d)(resolve env path \<mapsto> Partial),
            opened := opened d @ [resolve env path],
            write_count := Suc (write_count d)\<rparr>)"

text \<open>
  One iteration of the loop of \<^verbatim>\<open>flush_buffers\<close>, for the item \<open>((inst_id, channel),
  messages)\<close> of the snapshot \<^verbatim>\<open>list(buffers.items())\<close>. The file name is built before the
  \<^verbatim>\<open>try\<close>: an exception of \<^verbatim>\<open>_build_filename\<close> leaves the iteration (\<open>Inl\<close>) with nothing
  written and nothing reset. An exception of the write is caught and printed; the
  \<^verbatim>\<open>finally\<close> clause resets the entry on every path through the \<^verbatim>\<open>try\<close>.
\<close>

definition flush_item ::
  "pylib \<Rightarrow> writer_config \<Rightarrow> fsenv \<Rightarrow> int
     \<Rightarrow> buffers \<times> disk \<Rightarrow> buffer_key \<times> json list \<Rightarrow> exc + buffers \<times> disk" where
  "flush_item lib config env now_ms st item =
     (case item of
        ((inst_id, channel), messages) \<Rightarrow>
          if messages = [] then Inr st
          else
            (case build_filename lib config inst_id channel now_ms of
               Inl e \<Rightarrow> Inl e
             | Inr path \<Rightarrow>
                 Inr (buf_assign (fst st) (inst_id, channel) [],
                      write_file env (snd st) path messages)))"

text \<open>
  The loop over the snapshot. The first component of the result is the exception with
  which \<^verbatim>\<open>flush_buffers\<close> is left, \<open>None\<close> when it returns; the second is the store and
  the file system as they are then.
\<close>

fun flush_items ::
  "pylib \<Rightarrow> writer_config \<Rightarrow> fsenv \<Rightarrow> int
     \<Rightarrow> buffers \<times> disk \<Rightarrow> (buffer_key \<times> json list) list \<Rightarrow> exc option \<times> buffers \<times> disk" where
  "flush_items lib config env now_ms st [] = (None, st)"
| "flush_items lib config env now_ms st (item # rest) =
     (case flush_item lib config env now_ms st item of
        Inl e \<Rightarrow> (Some e, st)
      | Inr st' \<Rightarrow> flush_items lib config env now_ms st' rest)"

definition flush_buffers ::
  "pylib \<Rightarrow> writer_config \<Rightarrow> fsenv \<Rightarrow> buffers \<Rightarrow> disk \<Rightarrow> int
     \<Rightarrow> exc option \<times> buffers \<times> disk" where
  "flush_buffers lib config env bufs d now_ms =
     flush_items lib config env now_ms (bufs, d) bufs"

section \<open>The poll loop of the writer: \<^verbatim>\<open>_flush_loop\<close>\<close>





section \<open>The Connection Manager\<close>

record subscription =
  channel :: string
  inst_id :: string

record client_config =
  url :: string
  ping_interval_seconds :: int
  reconnect_base_delay_seconds :: rat
  reconnect_max_delay_seconds :: rat

text \<open>
  The delays are Python floats; doubling a float and taking the smaller of two floats are
  exact (short of overflow), so a delay is kept as the rational number it is.
\<close>

definition to_arg :: "subscription \<Rightarrow> json" where
  "to_arg sub = JObj [(''channel'', JStr (channel sub)), (''instId'', JStr (inst_id sub))]"

fun set_subscriptions :: "buffers \<Rightarrow> subscription list \<Rightarrow> buffers" where
  "set_subscriptions bufs [] = bufs"
| "set_subscriptions bufs (sub # subs) =
     set_subscriptions
       (if buf_lookup bufs (JStr (inst_id sub), JStr (channel sub)) = None
        then buf_assign bufs (JStr (inst_id sub), JStr (channel sub)) []
        else bufs)
       subs"

text \<open>
  What the environment does during one call of \<^verbatim>\<open>_connect_once\<close>: opening the
  connection raises; or the connection opens and sending the subscribe request raises; or
  the subscribe request is sent and frames arrive (each with the clock reading at its
  arrival) until the iteration over the socket ends, by a clean close or by raising. In
  the last case the keepalive task has been started; when the receive loop is left it is
  either still pending (asleep between two pings) or has already ended (a send of its own
  raised, which ends \<^verbatim>\<open>_ping_loop\<close> silently).
\<close>

datatype stream_end = CleanClose | TransportError

datatype ping_state = PingPending | PingEnded

datatype attempt =
    ConnectRaises
  | SubscribeRaises
  | Streams "(string \<times> json option) list" stream_end ping_state

fun subscribe_sent :: "attempt \<Rightarrow> bool" where
  "subscribe_sent (Streams frames e ping) = True"
| "subscribe_sent _ = False"

text \<open>
  \<^verbatim>\<open>async for message in ws: await self._handle_message(message)\<close>. The first component of
  the result is the exception that leaves the loop, \<open>None\<close> when the loop ends.
\<close>

fun receive_loop ::
  "buffers \<Rightarrow> (string \<times> json option) list \<Rightarrow> stream_end \<Rightarrow> exc option \<times> buffers" where
  "receive_loop bufs [] CleanClose = (None, bufs)"
| "receive_loop bufs [] TransportError = (Some ConnectionError, bufs)"
| "receive_loop bufs (fr # rest) e =
     (case handle_message bufs (fst fr) (snd fr) of
        Inl x \<Rightarrow> (Some x, bufs)
      | Inr bufs' \<Rightarrow> receive_loop bufs' rest e)"

text \<open>
  The \<^verbatim>\<open>finally\<close> clause of \<^verbatim>\<open>_connect_once\<close>: \<^verbatim>\<open>ping_task.cancel()\<close>, then
  \<^verbatim>\<open>await ping_task\<close> under \<^verbatim>\<open>contextlib.suppress(Exception)\<close>. \<open>leaving\<close> is the exception
  with which the receive loop was left, if any. Awaiting a task that was cancelled while
  pending raises \<^verbatim>\<open>CancelledError\<close>, which is not suppressed and replaces \<open>leaving\<close>; a
  task that has ended already is not affected by \<^verbatim>\<open>cancel()\<close> and awaiting it returns.
\<close>

fun stop_ping :: "ping_state \<Rightarrow> exc option \<Rightarrow> exc option" where
  "stop_ping PingPending leaving = Some CancelledError"
| "stop_ping PingEnded leaving = leaving"

definition connect_once ::
  "subscription list \<Rightarrow> buffers \<Rightarrow> attempt \<Rightarrow> exc option \<times> buffers" where
  "connect_once subs bufs a =
     (if subs = [] then (Some AssertionError, bufs)
      else
        (case a of
           ConnectRaises \<Rightarrow> (Some ConnectionError, bufs)
         | SubscribeRaises \<Rightarrow> (Some ConnectionError, bufs)
         | Streams frames e ping \<Rightarrow>
             (case receive_loop bufs frames e of
                (leaving, bufs') \<Rightarrow> (stop_ping ping leaving, bufs'))))"

text \<open>
  The loop of \<^verbatim>\<open>run_forever\<close>. Nothing inside the loop sets \<^verbatim>\<open>self._stop\<close>, so the loop
  ends only when an exception that is not an \<^verbatim>\<open>Exception\<close> leaves \<^verbatim>\<open>_connect_once\<close>: it
  passes the handler, and the \<^verbatim>\<open>finally\<close> clause of \<^verbatim>\<open>run_forever\<close> (which cancels and
  awaits the poll loop of the writer, a task that is always pending) raises
  \<^verbatim>\<open>CancelledError\<close> out of \<^verbatim>\<open>run_forever\<close>. The model runs the loop over the connection
  attempts the environment has answered so far and returns the state reached: the delays
  slept and the exceptions printed by the handler, oldest first, and in \<open>raised\<close> the
  exception with which \<^verbatim>\<open>run_forever\<close> has ended, if it has; attempts listed after that
  are not made. The poll loop of the writer runs beside this loop as a task of its own
  and is modelled above.
\<close>

record run =
  sleeps :: "rat list"
  tracebacks :: "exc list"
  delay :: rat
  store :: buffers
  raised :: "exc option"

fun reconnect_loop :: "client_config \<Rightarrow> subscription list \<Rightarrow> run \<Rightarrow> attempt list \<Rightarrow> run" where
  "reconnect_loop cfg subs r [] = r"
| "reconnect_loop cfg subs r (a # rest) =
     (if raised r \<noteq> None then r
      else
        (case connect_once subs (store r) a of
           (None, bufs') \<Rightarrow>
             reconnect_loop cfg subs
               (r\<lparr>delay := reconnect_base_delay_seconds cfg, store := bufs'\<rparr>) rest
         | (Some e, bufs') \<Rightarrow>
             if is_exception e
             then reconnect_loop cfg subs
                    (r\<lparr>sleeps := sleeps r @ [delay r],
                       tracebacks := tracebacks r @ [e],
                       delay := min (delay r * 2) (reconnect_max_delay_seconds cfg),
                       store := bufs'\<rparr>) rest
             else r\<lparr>store := bufs', raised := Some CancelledError\<rparr>))"

definition run_forever ::
  "client_config \<Rightarrow> subscription list \<Rightarrow> buffers \<Rightarrow> attempt list \<Rightarrow> run" where
  "run_forever cfg subs bufs attempts =
     reconnect_loop cfg subs
       \<lparr>sleeps = [], tracebacks = [], delay = reconnect_base_delay_seconds cfg, store = bufs,
        raised = None\<rparr>
       attempts"

text \<open>The defaults of \<^verbatim>\<open>ClientConfig\<close>, and the subscription of the spec's end-to-end examples.\<close>

definition default_client_config :: client_config where
  "default_client_config =
     \<lparr>url = ''wss://ws.okx.com:8443/ws/v5/public'', ping_interval_seconds = 15,
      reconnect_base_delay_seconds = 1, reconnect_max_delay_seconds = 30\<rparr>"

definition btc_trades :: subscription where
  "btc_trades = \<lparr>channel = ''trades'', inst_id = ''BTC-USDT''\<rparr>"

section \<open>Example data\<close>

text \<open>
  A stand-in for the library functions (it formats the two seconds in which the examples
  read the clock, 2024-01-01 00:00:00 and 00:01:00 UTC, and raises on everything else), the
  writer
  configuration of \<^verbatim>\<open>main()\<close>, environments in which every write succeeds, in which
  \<^verbatim>\<open>open\<close> always raises and in which \<^verbatim>\<open>json.dump\<close> always raises (each path naming a
  file of its own), a file system without files, and a Buffer Store holding one payload
  for the key \<^verbatim>\<open>("BTC-USDT", "trades")\<close>.
\<close>

definition example_lib :: pylib where
  "example_lib =
     \<lparr>strftime_compact =
        (\<lambda>ms. if ms div 1000 = 1704067200 then Some ''20240101T000000''
              else if ms div 1000 = 1704067260 then Some ''20240101T000100''
              else None),
      format_other = (\<lambda>v. None)\<rparr>"

definition all_ok :: fsenv where
  "all_ok = \<lparr>outcome = (\<lambda>n p m. WriteOk), resolve = (\<lambda>p. p)\<rparr>"

definition open_raises :: fsenv where
  "open_raises = \<lparr>outcome = (\<lambda>n p m. OpenRaises), resolve = (\<lambda>p. p)\<rparr>"

definition dump_raises :: fsenv where
  "dump_raises = \<lparr>outcome = (\<lambda>n p m. DumpRaises), resolve = (\<lambda>p. p)\<rparr>"

definition example_writer_config :: writer_config where
  "example_writer_config = \<lparr>output_dir = ''./okx_out/realtime'', file_rotate_seconds = 60\<rparr>"

definition empty_disk :: disk where
  "empty_disk = \<lparr>files = Map.empty, opened = [], write_count = 0\<rparr>"

definition trade_payload :: json where
  "trade_payload =
     build_payload (JStr ''BTC-USDT'') (JStr ''trades'') ''2024-01-01T00:00:00Z''
       (JArr [JObj [(''px'', JStr ''42000'')]]) JNull"

definition one_trade :: buffers where
  "one_trade = [((JStr ''BTC-USDT'', JStr ''trades''), [trade_payload])]"

text \<open>
  Frames as \<^verbatim>\<open>json.loads\<close> returns them: a trade pushed for the subscription, the same
  with an \<^verbatim>\<open>event\<close> field of an acknowledgement, one whose \<^verbatim>\<open>arg\<close> has no \<^verbatim>\<open>channel\<close>, and
  one whose \<^verbatim>\<open>instId\<close> is a list. \<open>no_channel_payload\<close> is the payload built for the third.
\<close>

definition trade_frame :: json where
  "trade_frame =
     JObj [(''arg'', JObj [(''channel'', JStr ''trades''), (''instId'', JStr ''BTC-USDT'')]),
           (''data'', JArr [JObj [(''px'', JStr ''42000'')]])]"

definition ack_frame :: json where
  "ack_frame =
     JObj [(''event'', JStr ''subscribe''),
           (''arg'', JObj [(''channel'', JStr ''trades''), (''instId'', JStr ''BTC-USDT'')]),
           (''data'', JArr [JObj [(''px'', JStr ''42000'')]])]"





text \<open>Two keys whose file names coincide: \<^verbatim>\<open>a_b\<close> + \<^verbatim>\<open>c\<close> and \<^verbatim>\<open>a\<close> + \<^verbatim>\<open>b_c\<close>.\<close>

definition colliding :: buffers where
  "colliding =
     [((JStr ''a_b'', JStr ''c''),
         [build_payload (JStr ''a_b'') (JStr ''c'') ''2024-01-01T00:00:00Z'' (JArr [JInt 1]) JNull]),
      ((JStr ''a'', JStr ''b_c''),
         [build_payload (JStr ''a'') (JStr ''b_c'') ''2024-01-01T00:00:01Z'' (JArr [JInt 2]) JNull])]"

section \<open>Notions used to state the properties\<close>

text \<open>All payloads held in the Buffer Store.\<close>

definition payloads :: "buffers \<Rightarrow> json set" where
  "payloads bufs = set (concat (map snd bufs))"

text \<open>
  The file that a flush at \<open>now_ms\<close> writes for the key \<open>k\<close>: what the path built for
  \<open>k\<close> resolves to, \<open>None\<close> when building the path raises.
\<close>

definition key_file :: "pylib \<Rightarrow> writer_config \<Rightarrow> fsenv \<Rightarrow> int \<Rightarrow> buffer_key \<Rightarrow> string option" where
  "key_file lib config env now_ms k =
     (case build_filename lib config (fst k) (snd k) now_ms of
        Inl e \<Rightarrow> None
      | Inr path \<Rightarrow> Some (resolve env path))"

text \<open>
  No other key of the store with a non-empty list is written to the file of \<open>k\<close>.
\<close>

definition sole_writer :: "pylib \<Rightarrow> writer_config \<Rightarrow> fsenv \<Rightarrow> int \<Rightarrow> buffers \<Rightarrow> buffer_key \<Rightarrow> bool" where
  "sole_writer lib config env now_ms bufs k =
     (\<forall>e \<in> set bufs. snd e \<noteq> [] \<and> fst e \<noteq> k
        \<longrightarrow> key_file lib config env now_ms (fst e) \<noteq> key_file lib config env now_ms k)"

text \<open>
  The number of the write that a flush attempts for the entry that follows the entries
  \<open>pre\<close> in the snapshot, on a file system that has seen \<open>write_count d\<close> writes: one
  write is attempted for each entry of \<open>pre\<close> with a non-empty list.
\<close>

definition write_no :: "disk \<Rightarrow> buffers \<Rightarrow> nat" where
  "write_no d pre = write_count d + length (filter (\<lambda>e. snd e \<noteq> []) pre)"

section \<open>Properties of the reconnect loop\<close>

lemma reconnect_loop_ended: "raised r \<noteq> None \<Longrightarrow> reconnect_loop cfg subs r atts = r"
  by (cases atts) simp_all

lemma reconnect_loop_append:
  "reconnect_loop cfg subs r (xs @ ys)
     = reconnect_loop cfg subs (reconnect_loop cfg subs r xs) ys"
proof (induction xs arbitrary: r)
  case Nil
  show ?case by simp
next
  case (Cons a xs)
  show ?case
  proof (cases "raised r \<noteq> None")
    case True
    then show ?thesis by (simp add: reconnect_loop_ended)
  next
    case False
    then show ?thesis
      using Cons.IH
      by (auto simp: reconnect_loop_ended split: prod.splits option.splits)
  qed
qed

lemma double_cap: "min (min (2 ^ k) 30 * 2) (30::rat) = min (2 ^ Suc k) 30"
  by (simp add: min_def)

lemma map_upt_shift: "map f [0..<Suc n] = f 0 # map (\<lambda>i. f (Suc i)) [0..<n]"
  by (simp only: upt_conv_Cons[of 0 "Suc n"] map_Suc_upt[symmetric]) simp

lemma all_fail_sleeps:
  assumes "reconnect_max_delay_seconds cfg = 30"
    and "\<forall>a \<in> set atts. \<forall>b. \<exists>e. fst (connect_once subs b a) = Some e \<and> is_exception e"
    and "delay r = min (2 ^ k) 30"
    and "raised r = None"
  shows "sleeps (reconnect_loop cfg subs r atts)
           = sleeps r @ map (\<lambda>i. min (2 ^ (k + i)) 30) [0..<length atts]"
  using assms(2,3,4)
proof (induction atts arbitrary: r k)
  case Nil
  then show ?case by simp
next
  case (Cons a atts)
  have "\<exists>e. fst (connect_once subs (store r) a) = Some e \<and> is_exception e"
    using Cons.prems(1) by simp
  then obtain e b' where co: "connect_once subs (store r) a = (Some e, b')" "is_exception e"
    by (cases "connect_once subs (store r) a") auto
  let ?r' = "r\<lparr>sleeps := sleeps r @ [delay r], tracebacks := tracebacks r @ [e],
               delay := min (delay r * 2) (reconnect_max_delay_seconds cfg), store := b'\<rparr>"
  have d: "delay ?r' = min (2 ^ Suc k) 30"
    using Cons.prems(2) assms(1) by (simp add: double_cap)
  have n: "raised ?r' = None"
    using Cons.prems(3) by simp
  have "sleeps (reconnect_loop cfg subs ?r' atts)
          = sleeps ?r' @ map (\<lambda>i. min (2 ^ (Suc k + i)) 30) [0..<length atts]"
    using Cons.IH[OF _ d n] Cons.prems(1) by simp
  then show ?case
    using co Cons.prems(2,3) by (simp add: map_upt_shift del: upt_Suc)
qed

lemma first_seven_delays: "map (\<lambda>i. min (2 ^ i) (30::rat)) [0..<7] = [1, 2, 4, 8, 16, 30, 30]"
  by (simp add: upt_rec)

text \<open>
  C6. With a base delay of 1 s and a maximal delay of 30 s, a run of consecutive failed
  connection attempts sleeps 1, 2, 4, 8, 16, 30, 30, ... between the attempts: the delay
  before the attempt after the \<open>i\<close>-th failure of the run (counted from 0) is the smaller
  of \<open>2 ^ i\<close> and 30. An attempt fails when \<^verbatim>\<open>_connect_once\<close> raises an \<^verbatim>\<open>Exception\<close>,
  whatever the Buffer Store holds. The run starts where the delay is the base delay: at
  the start of \<^verbatim>\<open>run_forever\<close> (\<open>pre = []\<close>), or after an attempt that returned.
\<close>

theorem backoff_delays_double_to_cap:
  assumes "reconnect_base_delay_seconds cfg = 1"
    and "reconnect_max_delay_seconds cfg = 30"
    and "raised (run_forever cfg subs bufs pre) = None"
    and "delay (run_forever cfg subs bufs pre) = 1"
    and "\<forall>a \<in> set attempts. \<forall>b. \<exists>e. fst (connect_once subs b a) = Some e \<and> is_exception e"
  shows "sleeps (run_forever cfg subs bufs (pre @ attempts))
           = sleeps (run_forever cfg subs bufs pre)
             @ map (\<lambda>i. min (2 ^ i) 30) [0..<length attempts]"
proof -
  have "run_forever cfg subs bufs (pre @ attempts)
          = reconnect_loop cfg subs (run_forever cfg subs bufs pre) attempts"
    by (simp add: run_forever_def reconnect_loop_append)
  then show ?thesis
    using all_fail_sleeps[OF assms(2) assms(5), where k = 0 and r = "run_forever cfg subs bufs pre"]
      assms(3,4)
    by simp
qed

text \<open>
  Seven refused connections with the default configuration, from the start: 1, 2, 4, 8,
  16, 30, 30.
\<close>

theorem backoff_delays_double_to_cap_witness:
  "reconnect_base_delay_seconds default_client_config = 1
   \<and> reconnect_max_delay_seconds default_client_config = 30
   \<and> raised (run_forever default_client_config [btc_trades] [] []) = None
   \<and> delay (run_forever default_client_config [btc_trades] [] []) = 1
   \<and> (\<forall>b. \<exists>e. fst (connect_once [btc_trades] b ConnectRaises) = Some e \<and> is_exception e)
   \<and> sleeps (run_forever default_client_config [btc_trades] [] ([] @ replicate 7 ConnectRaises))
       = [1, 2, 4, 8, 16, 30, 30]"
proof -
  have b: "reconnect_base_delay_seconds default_client_config = 1"
    and m: "reconnect_max_delay_seconds default_client_config = 30"
    by (simp_all add: default_client_config_def)
  have r: "raised (run_forever default_client_config [btc_trades] [] []) = None"
    and d: "delay (run_forever default_client_config [btc_trades] [] []) = 1"
    by (simp_all add: run_forever_def default_client_config_def)
  have f: "\<forall>b. \<exists>e. fst (connect_once [btc_trades] b ConnectRaises) = Some e \<and> is_exception e"
    by (simp add: connect_once_def)
  then have "\<forall>a \<in> set (replicate 7 ConnectRaises).
               \<forall>b. \<exists>e. fst (connect_once [btc_trades] b a) = Some e \<and> is_exception e"
    by simp
  from backoff_delays_double_to_cap[OF b m r d this]
  have "sleeps (run_forever default_client_config [btc_trades] [] ([] @ replicate 7 ConnectRaises))
          = sleeps (run_forever default_client_config [btc_trades] [] [])
            @ [1, 2, 4, 8, 16, 30, 30]"
    by (simp add: first_seven_delays)
  moreover have "sleeps (run_forever default_client_config [btc_trades] [] []) = []"
    by (simp add: run_forever_def)
  ultimately show ?thesis
    using b m r d f by simp
qed

lemma no_subscriptions_loop:
  "raised r = None \<Longrightarrow>
   tracebacks (reconnect_loop cfg [] r atts)
     = tracebacks r @ replicate (length atts) AssertionError
   \<and> length (sleeps (reconnect_loop cfg [] r atts)) = length (sleeps r) + length atts
   \<and> store (reconnect_loop cfg [] r atts) = store r
   \<and> raised (reconnect_loop cfg [] r atts) = None"
  by (induction atts arbitrary: r) (simp_all add: connect_once_def replicate_append_same)

text \<open>
  C2 (the code departs from the claim). With an empty Subscription Registry the
  \<^verbatim>\<open>assert\<close> of \<^verbatim>\<open>_connect_once\<close> raises inside the \<^verbatim>\<open>try\<close> of the reconnect loop, and
  \<^verbatim>\<open>AssertionError\<close> is an \<^verbatim>\<open>Exception\<close>: the handler prints it, sleeps and the loop goes
  round again. However many attempts the loop has been given time for, each of them ended
  in the same \<^verbatim>\<open>AssertionError\<close> followed by a backoff sleep, without the network being
  touched, and \<^verbatim>\<open>run_forever\<close> has not ended.
\<close>

theorem empty_registry_is_retried_as_transient:
  "tracebacks (run_forever cfg [] bufs attempts) = replicate (length attempts) AssertionError
   \<and> length (sleeps (run_forever cfg [] bufs attempts)) = length attempts
   \<and> store (run_forever cfg [] bufs attempts) = bufs
   \<and> raised (run_forever cfg [] bufs attempts) = None"
  using no_subscriptions_loop[of _ cfg attempts] by (simp add: run_forever_def)

text \<open>
  C3 as stated fails: the second attempt below sends its subscribe request and then ends
  in a transport error (the keepalive task having ended before); it is followed by a
  sleep of 2 s and the next failure by one of 4 s, not by the base delay of 1 s.
\<close>

theorem handshake_does_not_reset_backoff:
  "subscribe_sent (Streams [] TransportError PingEnded)
   \<and> sleeps (run_forever default_client_config [btc_trades] []
               [ConnectRaises, Streams [] TransportError PingEnded, ConnectRaises]) = [1, 2, 4]
   \<and> (4::rat) \<noteq> reconnect_base_delay_seconds default_client_config"
  by (simp add: run_forever_def connect_once_def default_client_config_def btc_trades_def)

text \<open>
  C3, amended. While the loop runs, the delay goes back to the base delay exactly when
  \<^verbatim>\<open>_connect_once\<close> returns without raising: if the attempt \<open>a\<close> returns, the failure \<open>f\<close>
  that follows it sleeps the base delay; if \<open>a\<close> raises an \<^verbatim>\<open>Exception\<close> (be it after its
  subscribe request was sent), \<open>a\<close> sleeps the delay \<open>d\<close> reached before it and \<open>f\<close> sleeps
  the smaller of \<open>2 * d\<close> and the maximal delay. (An attempt that ends in
  \<^verbatim>\<open>CancelledError\<close> is not covered.)
\<close>

theorem backoff_resets_on_clean_return:
  assumes "raised (run_forever cfg subs bufs pre) = None"
    and "fst (connect_once subs (store (run_forever cfg subs bufs pre)) a) \<noteq> Some CancelledError"
    and "\<forall>b. \<exists>e. fst (connect_once subs b f) = Some e \<and> is_exception e"
  shows "sleeps (run_forever cfg subs bufs (pre @ [a, f]))
           = sleeps (run_forever cfg subs bufs pre)
             @ (if fst (connect_once subs (store (run_forever cfg subs bufs pre)) a) = None
                then [reconnect_base_delay_seconds cfg]
                else [delay (run_forever cfg subs bufs pre),
                      min (delay (run_forever cfg subs bufs pre) * 2)
                          (reconnect_max_delay_seconds cfg)])"
proof -
  let ?r = "run_forever cfg subs bufs pre"
  have split: "run_forever cfg subs bufs (pre @ [a, f]) = reconnect_loop cfg subs ?r [a, f]"
    by (simp add: run_forever_def reconnect_loop_append)
  obtain ra ba where a: "connect_once subs (store ?r) a = (ra, ba)"
    by (cases "connect_once subs (store ?r) a")
  from assms(3) have "\<exists>e. fst (connect_once subs ba f) = Some e \<and> is_exception e" by simp
  then obtain e bf where f: "connect_once subs ba f = (Some e, bf)" "is_exception e"
    by (cases "connect_once subs ba f") auto
  show ?thesis
  proof (cases ra)
    case None
    with a f assms(1) show ?thesis unfolding split by simp
  next
    case (Some x)
    with a assms(2) have "is_exception x" by (cases x) simp_all
    with Some a f assms(1) show ?thesis unfolding split by simp
  qed
qed

text \<open>
  After two refused connections (sleeps of 1 s and 2 s), with the keepalive task ended: a
  stream that closes cleanly is followed by a sleep of 1 s at the next failure; a stream
  that ends in a transport error sleeps 4 s, and the next failure 8 s.
\<close>

theorem backoff_resets_on_clean_return_witness:
  "(\<forall>b. \<exists>e. fst (connect_once [btc_trades] b ConnectRaises) = Some e \<and> is_exception e)
   \<and> raised (run_forever default_client_config [btc_trades] [] [ConnectRaises, ConnectRaises])
       = None
   \<and> fst (connect_once [btc_trades] [] (Streams [] CleanClose PingEnded)) = None
   \<and> fst (connect_once [btc_trades] [] (Streams [] TransportError PingEnded))
       = Some ConnectionError
   \<and> sleeps (run_forever default_client_config [btc_trades] []
               ([ConnectRaises, ConnectRaises] @ [Streams [] CleanClose PingEnded, ConnectRaises]))
       = [1, 2, 1]
   \<and> sleeps (run_forever default_client_config [btc_trades] []
               ([ConnectRaises, ConnectRaises]
                @ [Streams [] TransportError PingEnded, ConnectRaises]))
       = [1, 2, 4, 8]"
proof -
  have f: "\<forall>b. \<exists>e. fst (connect_once [btc_trades] b ConnectRaises) = Some e \<and> is_exception e"
    by (simp add: connect_once_def)
  have pre: "run_forever default_client_config [btc_trades] [] [ConnectRaises, ConnectRaises]
         = \<lparr>sleeps = [1, 2], tracebacks = [ConnectionError, ConnectionError],
            delay = 4, store = [], raised = None\<rparr>"
    by (simp add: run_forever_def connect_once_def default_client_config_def)
  have n: "raised (run_forever default_client_config [btc_trades] []
             [ConnectRaises, ConnectRaises]) = None"
    by (simp add: pre)
  have c: "fst (connect_once [btc_trades] [] (Streams [] CleanClose PingEnded)) = None"
    and t: "fst (connect_once [btc_trades] [] (Streams [] TransportError PingEnded))
              = Some ConnectionError"
    by (simp_all add: connect_once_def)
  have c': "fst (connect_once [btc_trades]
               (store (run_forever default_client_config [btc_trades] []
                  [ConnectRaises, ConnectRaises]))
               (Streams [] CleanClose PingEnded)) \<noteq> Some CancelledError"
    and t': "fst (connect_once [btc_trades]
               (store (run_forever default_client_config [btc_trades] []
                  [ConnectRaises, ConnectRaises]))
               (Streams [] TransportError PingEnded)) \<noteq> Some CancelledError"
    by (simp_all add: pre c t)
  note clean = backoff_resets_on_clean_return[OF n c' f, unfolded pre]
  note broken = backoff_resets_on_clean_return[OF n t' f, unfolded pre]
  show ?thesis
    using f n c t clean broken
    by (simp add: default_client_config_def)
qed

section \<open>Python equality and the Buffer Store\<close>

lemma py_eq_JStr [simp]: "py_eq v (JStr s) \<longleftrightarrow> v = JStr s"
  by (cases v) (auto simp: py_eq_def)

lemma py_eq_refl [simp]: "py_eq a a"
  by (cases a) (auto simp: py_eq_def)

lemma py_eq_sym: "py_eq a b \<Longrightarrow> py_eq b a"
  by (auto simp: py_eq_def split: option.splits)

lemma py_eq_trans: "py_eq a b \<Longrightarrow> py_eq b c \<Longrightarrow> py_eq a c"
  by (auto simp: py_eq_def split: option.splits)

lemma same_key_refl [simp]: "same_key k k"
  by (simp add: same_key_def)

lemma same_key_sym: "same_key k k' \<Longrightarrow> same_key k' k"
  by (auto simp: same_key_def intro: py_eq_sym)

lemma same_key_trans: "same_key a b \<Longrightarrow> same_key b c \<Longrightarrow> same_key a c"
  by (auto simp: same_key_def intro: py_eq_trans)

lemma same_key_left: "same_key a b \<Longrightarrow> same_key a c \<longleftrightarrow> same_key b c"
  by (blast intro: same_key_sym same_key_trans)

lemma buf_lookup_assign:
  "buf_lookup (buf_assign bufs k v) k' = (if same_key k k' then Some v else buf_lookup bufs k')"
proof (induction bufs)
  case Nil
  show ?case by simp
next
  case (Cons entry bufs)
  obtain k0 v0 where entry: "entry = (k0, v0)" by (cases entry)
  show ?case
  proof (cases "same_key k0 k")
    case True
    then have "same_key k0 k' \<longleftrightarrow> same_key k k'" by (rule same_key_left)
    with True show ?thesis by (simp add: entry)
  next
    case False
    have "\<not> (same_key k0 k' \<and> same_key k k')"
      using False by (blast intro: same_key_sym same_key_trans)
    with False Cons.IH show ?thesis by (auto simp: entry)
  qed
qed


section \<open>The cases of \<^verbatim>\<open>_handle_message\<close>\<close>

lemma payloads_Nil [simp]: "payloads [] = {}"
  by (simp add: payloads_def)

lemma payloads_Cons [simp]: "payloads ((k, v) # bufs) = set v \<union> payloads bufs"
  by (simp add: payloads_def)

lemma payloads_assign: "payloads (buf_assign bufs k v) \<subseteq> payloads bufs \<union> set v"
  by (induction bufs k v rule: buf_assign.induct) auto

lemma lookup_in_payloads: "buf_lookup bufs k = Some v \<Longrightarrow> set v \<subseteq> payloads bufs"
  by (induction bufs k rule: buf_lookup.induct) (auto split: if_splits)

lemma py_get_Inr: "py_get x k = Inr v \<Longrightarrow> is_dict x"
  by (cases x) simp_all

lemma payloads_append:
  "buf_append bufs k x = Inr bufs' \<Longrightarrow> payloads bufs' \<subseteq> insert x (payloads bufs)"
  using payloads_assign lookup_in_payloads
  by (fastforce simp: buf_append_def split: option.splits)

lemma source_of_payload:
  "py_get (build_payload inst chan ts data action) ''source'' = Inr (JStr ''WS'')"
  by (simp add: build_payload_def dict_get_def)

lemma handle_unparseable: "handle_message bufs ts None = Inr bufs"
  by (simp add: handle_message_def)

lemma handle_non_dict: "\<not> is_dict msg \<Longrightarrow> handle_message bufs ts (Some msg) = Inl AttributeError"
  by (cases msg) (simp_all add: handle_message_def)

lemma handle_unhashable_event:
  "\<not> hashable (dict_get kvs ''event'')
   \<Longrightarrow> handle_message bufs ts (Some (JObj kvs)) = Inl TypeError"
  by (simp add: handle_message_def in_control_events_def)

lemma handle_control:
  "in_control_events (dict_get kvs ''event'') = Inr True
   \<Longrightarrow> handle_message bufs ts (Some (JObj kvs)) = Inr bufs"
  by (simp add: handle_message_def)

lemma handle_incomplete:
  "in_control_events (dict_get kvs ''event'') = Inr False
   \<Longrightarrow> \<not> truthy (dict_get kvs ''arg'') \<or> \<not> truthy (dict_get kvs ''data'')
   \<Longrightarrow> handle_message bufs ts (Some (JObj kvs)) = Inr bufs"
  by (simp add: handle_message_def)

lemma handle_arg_non_dict:
  "in_control_events (dict_get kvs ''event'') = Inr False
   \<Longrightarrow> truthy (dict_get kvs ''arg'') \<Longrightarrow> truthy (dict_get kvs ''data'')
   \<Longrightarrow> \<not> is_dict (dict_get kvs ''arg'')
   \<Longrightarrow> handle_message bufs ts (Some (JObj kvs)) = Inl AttributeError"
  by (cases "dict_get kvs ''arg''") (simp_all add: handle_message_def)

lemma handle_unhashable_key:
  "in_control_events (dict_get kvs ''event'') = Inr False
   \<Longrightarrow> dict_get kvs ''arg'' = JObj akvs \<Longrightarrow> akvs \<noteq> [] \<Longrightarrow> truthy (dict_get kvs ''data'')
   \<Longrightarrow> \<not> key_hashable (dict_get akvs ''instId'', dict_get akvs ''channel'')
   \<Longrightarrow> handle_message bufs ts (Some (JObj kvs)) = Inl TypeError"
  by (simp add: handle_message_def)

lemma handle_data:
  "in_control_events (dict_get kvs ''event'') = Inr False
   \<Longrightarrow> dict_get kvs ''arg'' = JObj akvs \<Longrightarrow> akvs \<noteq> [] \<Longrightarrow> truthy (dict_get kvs ''data'')
   \<Longrightarrow> key_hashable (dict_get akvs ''instId'', dict_get akvs ''channel'')
   \<Longrightarrow> handle_message bufs ts (Some (JObj kvs))
       = buf_append
           (if buf_lookup bufs (dict_get akvs ''instId'', dict_get akvs ''channel'') = None
            then buf_assign bufs (dict_get akvs ''instId'', dict_get akvs ''channel'') []
            else bufs)
           (dict_get akvs ''instId'', dict_get akvs ''channel'')
           (build_payload (dict_get akvs ''instId'') (dict_get akvs ''channel'') ts
              (dict_get kvs ''data'') (dict_get kvs ''action''))"
  by (simp add: handle_message_def)

lemma handle_message_result:
  assumes "handle_message bufs ts loaded = Inr bufs'"
  shows "bufs' = bufs
         \<or> (\<exists>inst chan data action.
               buf_append (if buf_lookup bufs (inst, chan) = None
                           then buf_assign bufs (inst, chan) [] else bufs)
                 (inst, chan) (build_payload inst chan ts data action) = Inr bufs')"
proof (cases loaded)
  case None
  with assms show ?thesis by (simp add: handle_unparseable)
next
  case (Some msg)
  show ?thesis
  proof (cases msg)
    case (JObj kvs)
    note msg = Some JObj
    show ?thesis
    proof (cases "in_control_events (dict_get kvs ''event'')")
      case (Inl e)
      with assms msg show ?thesis by (simp add: handle_message_def)
    next
      case (Inr c)
      show ?thesis
      proof (cases c)
        case True
        with assms msg Inr show ?thesis by (simp add: handle_control)
      next
        case False
        with Inr have ev: "in_control_events (dict_get kvs ''event'') = Inr False" by simp
        show ?thesis
        proof (cases "truthy (dict_get kvs ''arg'') \<and> truthy (dict_get kvs ''data'')")
          case False
          then have inc: "\<not> truthy (dict_get kvs ''arg'') \<or> \<not> truthy (dict_get kvs ''data'')"
            by simp
          from assms msg show ?thesis by (simp add: handle_incomplete[OF ev inc])
        next
          case True
          show ?thesis
          proof (cases "is_dict (dict_get kvs ''arg'')")
            case False
            with assms msg ev True show ?thesis by (simp add: handle_arg_non_dict)
          next
            case True
            then obtain akvs where arg: "dict_get kvs ''arg'' = JObj akvs"
              by (cases "dict_get kvs ''arg''") simp_all
            with \<open>truthy (dict_get kvs ''arg'') \<and> truthy (dict_get kvs ''data'')\<close>
            have ne: "akvs \<noteq> []" and data: "truthy (dict_get kvs ''data'')" by simp_all
            show ?thesis
            proof (cases "key_hashable (dict_get akvs ''instId'', dict_get akvs ''channel'')")
              case False
              with assms msg show ?thesis
                by (simp add: handle_unhashable_key[OF ev arg ne data])
            next
              case True
              from assms msg
              have "buf_append
                      (if buf_lookup bufs (dict_get akvs ''instId'', dict_get akvs ''channel'') = None
                       then buf_assign bufs (dict_get akvs ''instId'', dict_get akvs ''channel'') []
                       else bufs)
                      (dict_get akvs ''instId'', dict_get akvs ''channel'')
                      (build_payload (dict_get akvs ''instId'') (dict_get akvs ''channel'') ts
                         (dict_get kvs ''data'') (dict_get kvs ''action'')) = Inr bufs'"
                by (simp add: handle_data[OF ev arg ne data True])
              then show ?thesis by blast
            qed
          qed
        qed
      qed
    qed
  qed (use assms Some in \<open>simp_all add: handle_non_dict\<close>)
qed

section \<open>What a flush does to the store and to the files\<close>

lemma lookup_Some_entry:
  "buf_lookup bufs k = Some v \<Longrightarrow> \<exists>k'. (k', v) \<in> set bufs \<and> same_key k' k"
  by (induction bufs k rule: buf_lookup.induct) (auto split: if_splits)

lemma lookup_None_entry:
  "buf_lookup bufs k = None \<Longrightarrow> (k', v) \<in> set bufs \<Longrightarrow> \<not> same_key k' k"
  by (induction bufs k rule: buf_lookup.induct) (auto split: if_splits)

lemma flush_item_empty:
  "snd e = [] \<Longrightarrow> flush_item lib config env now_ms st e = Inr st"
  by (cases e) (auto simp: flush_item_def)

lemma flush_item_raises:
  "snd e \<noteq> [] \<Longrightarrow> build_filename lib config (fst (fst e)) (snd (fst e)) now_ms = Inl x
   \<Longrightarrow> flush_item lib config env now_ms st e = Inl x"
  by (cases e) (auto simp: flush_item_def)

lemma flush_item_writes:
  "snd e \<noteq> [] \<Longrightarrow> build_filename lib config (fst (fst e)) (snd (fst e)) now_ms = Inr p
   \<Longrightarrow> flush_item lib config env now_ms st e
       = Inr (buf_assign (fst st) (fst e) [], write_file env (snd st) p (snd e))"
  by (cases e) (auto simp: flush_item_def)

lemma flush_item_cases:
  obtains "snd e = []" "flush_item lib config env now_ms st e = Inr st"
  | x where "snd e \<noteq> []" "key_file lib config env now_ms (fst e) = None"
      "flush_item lib config env now_ms st e = Inl x"
  | p where "snd e \<noteq> []" "build_filename lib config (fst (fst e)) (snd (fst e)) now_ms = Inr p"
      "key_file lib config env now_ms (fst e) = Some (resolve env p)"
      "flush_item lib config env now_ms st e
         = Inr (buf_assign (fst st) (fst e) [], write_file env (snd st) p (snd e))"
proof (cases "snd e = []")
  case True
  then show ?thesis using that(1) flush_item_empty by blast
next
  case False
  show ?thesis
  proof (cases "build_filename lib config (fst (fst e)) (snd (fst e)) now_ms")
    case (Inl x)
    with False show ?thesis
      using that(2)[of x] flush_item_raises[of e lib config now_ms x env st]
      by (simp add: key_file_def)
  next
    case (Inr p)
    with False show ?thesis
      using that(3)[of p] flush_item_writes[of e lib config now_ms p env st]
      by (simp add: key_file_def)
  qed
qed

lemma flush_items_append:
  "flush_items lib config env now_ms st (xs @ ys)
     = (case flush_items lib config env now_ms st xs of
          (None, st') \<Rightarrow> flush_items lib config env now_ms st' ys
        | (Some e, st') \<Rightarrow> (Some e, st'))"
  by (induction xs arbitrary: st) (auto split: sum.splits)

lemma write_file_count: "write_count (write_file env d p m) = Suc (write_count d)"
  by (cases "outcome env (write_count d) p m") (simp_all add: write_file_def)

lemma write_file_other:
  "resolve env p \<noteq> q \<Longrightarrow> files (write_file env d p m) q = files d q
     \<and> count_list (opened (write_file env d p m)) q = count_list (opened d) q"
  by (cases "outcome env (write_count d) p m") (simp_all add: write_file_def)

lemma write_file_ok:
  "outcome env (write_count d) p m = WriteOk
   \<Longrightarrow> files (write_file env d p m) (resolve env p) = Some (Complete m)
     \<and> count_list (opened (write_file env d p m)) (resolve env p)
         = count_list (opened d) (resolve env p) + 1"
  by (simp add: write_file_def)

lemma flush_keeps_reset:
  "buf_lookup (fst st) k = Some []
   \<Longrightarrow> buf_lookup (fst (snd (flush_items lib config env now_ms st items))) k = Some []"
proof (induction items arbitrary: st)
  case Nil
  then show ?case by simp
next
  case (Cons e items)
  show ?case
  proof (cases rule: flush_item_cases[of e lib config env now_ms st])
    case 1
    with Cons show ?thesis by simp
  next
    case (2 x)
    with Cons.prems show ?thesis by simp
  next
    case (3 p)
    have "buf_lookup (buf_assign (fst st) (fst e) []) k = Some []"
      using Cons.prems by (simp add: buf_lookup_assign)
    with Cons.IH[of "(buf_assign (fst st) (fst e) [], write_file env (snd st) p (snd e))"] 3
    show ?thesis by simp
  qed
qed

lemma flush_returned_count:
  "fst (flush_items lib config env now_ms st items) = None
   \<Longrightarrow> write_count (snd (snd (flush_items lib config env now_ms st items)))
       = write_count (snd st) + length (filter (\<lambda>e. snd e \<noteq> []) items)"
proof (induction items arbitrary: st)
  case Nil
  then show ?case by simp
next
  case (Cons e items)
  show ?case
  proof (cases rule: flush_item_cases[of e lib config env now_ms st])
    case 1
    with Cons show ?thesis by simp
  next
    case (2 x)
    with Cons.prems show ?thesis by simp
  next
    case (3 p)
    let ?st' = "(buf_assign (fst st) (fst e) [], write_file env (snd st) p (snd e))"
    from Cons.prems 3 have "fst (flush_items lib config env now_ms ?st' items) = None" by simp
    from Cons.IH[OF this] 3 show ?thesis by (simp add: write_file_count)
  qed
qed

lemma flush_other_files:
  "\<forall>e \<in> set items. snd e \<noteq> [] \<longrightarrow> key_file lib config env now_ms (fst e) \<noteq> Some q
   \<Longrightarrow> files (snd (snd (flush_items lib config env now_ms st items))) q = files (snd st) q
     \<and> count_list (opened (snd (snd (flush_items lib config env now_ms st items)))) q
         = count_list (opened (snd st)) q"
proof (induction items arbitrary: st)
  case Nil
  then show ?case by simp
next
  case (Cons e items)
  from Cons.prems have rest:
    "\<forall>e \<in> set items. snd e \<noteq> [] \<longrightarrow> key_file lib config env now_ms (fst e) \<noteq> Some q"
    by simp
  show ?case
  proof (cases rule: flush_item_cases[of e lib config env now_ms st])
    case 1
    with Cons.IH[OF rest] show ?thesis by simp
  next
    case (2 x)
    then show ?thesis by simp
  next
    case (3 p)
    with Cons.prems have "resolve env p \<noteq> q" by auto
    from write_file_other[OF this, of "snd st" "snd e"]
      Cons.IH[OF rest, of "(buf_assign (fst st) (fst e) [], write_file env (snd st) p (snd e))"] 3
    show ?thesis by simp
  qed
qed

lemma flush_reaches_entry:
  assumes "fst (flush_items lib config env now_ms st (pre @ (k, msgs) # post)) = None"
    and "msgs \<noteq> []"
    and "build_filename lib config (fst k) (snd k) now_ms = Inr p"
  obtains st1 where
    "flush_items lib config env now_ms st pre = (None, st1)"
    "flush_items lib config env now_ms st (pre @ (k, msgs) # post)
       = flush_items lib config env now_ms
           (buf_assign (fst st1) k [], write_file env (snd st1) p msgs) post"
proof -
  obtain r1 st1 where pre: "flush_items lib config env now_ms st pre = (r1, st1)"
    by (cases "flush_items lib config env now_ms st pre")
  with assms(1) have r1: "r1 = None"
    by (cases r1) (simp_all add: flush_items_append)
  have "flush_item lib config env now_ms st1 (k, msgs)
          = Inr (buf_assign (fst st1) k [], write_file env (snd st1) p msgs)"
    using flush_item_writes[of "(k, msgs)" lib config now_ms p env st1] assms(2,3) by simp
  then have "flush_items lib config env now_ms st (pre @ (k, msgs) # post)
       = flush_items lib config env now_ms
           (buf_assign (fst st1) k [], write_file env (snd st1) p msgs) post"
    by (simp add: flush_items_append pre r1)
  with pre r1 show ?thesis using that by simp
qed

lemma flush_items_resets_entry:
  assumes "msgs \<noteq> []"
    and "fst (flush_items lib config env now_ms st (pre @ (k, msgs) # post)) = None"
  shows "buf_lookup (fst (snd (flush_items lib config env now_ms st (pre @ (k, msgs) # post)))) k
           = Some []"
proof -
  have "\<exists>p. build_filename lib config (fst k) (snd k) now_ms = Inr p"
  proof (cases "build_filename lib config (fst k) (snd k) now_ms")
    case (Inl x)
    obtain r1 st1 where pre: "flush_items lib config env now_ms st pre = (r1, st1)"
      by (cases "flush_items lib config env now_ms st pre")
    have "flush_item lib config env now_ms st1 (k, msgs) = Inl x"
      using flush_item_raises[of "(k, msgs)" lib config now_ms x env st1] assms(1) Inl by simp
    then have "fst (flush_items lib config env now_ms st (pre @ (k, msgs) # post)) \<noteq> None"
      by (cases r1) (simp_all add: flush_items_append pre)
    with assms(2) show ?thesis by simp
  qed blast
  then obtain p where p: "build_filename lib config (fst k) (snd k) now_ms = Inr p" ..
  from flush_reaches_entry[OF assms(2,1) p]
  obtain st1 where
    whole: "flush_items lib config env now_ms st (pre @ (k, msgs) # post)
       = flush_items lib config env now_ms
           (buf_assign (fst st1) k [], write_file env (snd st1) p msgs) post"
    by blast
  have "buf_lookup (fst (buf_assign (fst st1) k [], write_file env (snd st1) p msgs)) k = Some []"
    by (simp add: buf_lookup_assign)
  from flush_keeps_reset[OF this, of lib config env now_ms post] whole
  show ?thesis by simp
qed

lemma flush_resets_entry:
  assumes "bufs = pre @ (k, msgs) # post"
    and "msgs \<noteq> []"
    and "fst (flush_buffers lib config env bufs d now_ms) = None"
  shows "buf_lookup (fst (snd (flush_buffers lib config env bufs d now_ms))) k = Some []"
  using flush_items_resets_entry[of msgs lib config env now_ms "(bufs, d)" pre k post] assms
  by (simp add: flush_buffers_def)

lemma flush_items_writes_entry:
  assumes "k \<notin> fst ` set pre" and "k \<notin> fst ` set post"
    and "msgs \<noteq> []"
    and "fst (flush_items lib config env now_ms st (pre @ (k, msgs) # post)) = None"
    and "build_filename lib config (fst k) (snd k) now_ms = Inr p"
    and "outcome env (write_no (snd st) pre) p msgs = WriteOk"
    and "sole_writer lib config env now_ms (pre @ (k, msgs) # post) k"
  shows "files (snd (snd (flush_items lib config env now_ms st (pre @ (k, msgs) # post))))
           (resolve env p) = Some (Complete msgs)
         \<and> count_list
             (opened (snd (snd (flush_items lib config env now_ms st (pre @ (k, msgs) # post)))))
             (resolve env p)
           = count_list (opened (snd st)) (resolve env p) + 1"
proof -
  let ?q = "resolve env p"
  have kf: "key_file lib config env now_ms k = Some ?q"
    using assms(5) by (simp add: key_file_def)
  have other: "\<forall>e \<in> set xs. snd e \<noteq> [] \<longrightarrow> key_file lib config env now_ms (fst e) \<noteq> Some ?q"
    if "set xs \<subseteq> set (pre @ (k, msgs) # post)" "k \<notin> fst ` set xs" for xs
  proof (intro ballI impI)
    fix e assume e: "e \<in> set xs" "snd e \<noteq> []"
    with that have "e \<in> set (pre @ (k, msgs) # post)" "fst e \<noteq> k" by auto
    with assms(7) e(2) show "key_file lib config env now_ms (fst e) \<noteq> Some ?q"
      unfolding sole_writer_def kf by blast
  qed
  from flush_reaches_entry[OF assms(4,3,5)]
  obtain st1 where
    pre: "flush_items lib config env now_ms st pre = (None, st1)"
    and whole: "flush_items lib config env now_ms st (pre @ (k, msgs) # post)
       = flush_items lib config env now_ms
           (buf_assign (fst st1) k [], write_file env (snd st1) p msgs) post"
    by blast
  let ?d1 = "snd st1"
  let ?st2 = "(buf_assign (fst st1) k [], write_file env ?d1 p msgs)"
  have cnt: "write_count ?d1 = write_no (snd st) pre"
    using flush_returned_count[of lib config env now_ms st pre] pre
    by (simp add: write_no_def)
  have before: "count_list (opened ?d1) ?q = count_list (opened (snd st)) ?q"
    using flush_other_files[OF other[of pre], of st] assms(1) pre by auto
  have mid: "files (snd ?st2) ?q = Some (Complete msgs)"
    "count_list (opened (snd ?st2)) ?q = count_list (opened ?d1) ?q + 1"
    using write_file_ok[of env ?d1 p msgs] assms(6) cnt by simp_all
  have after: "files (snd (snd (flush_items lib config env now_ms ?st2 post))) ?q
                 = files (snd ?st2) ?q"
    "count_list (opened (snd (snd (flush_items lib config env now_ms ?st2 post)))) ?q
       = count_list (opened (snd ?st2)) ?q"
    using flush_other_files[OF other[of post], of ?st2] assms(2) by auto
  show ?thesis
    using before mid after whole by simp
qed

lemma flush_writes_entry:
  assumes "distinct (map fst bufs)"
    and "bufs = pre @ (k, msgs) # post"
    and "msgs \<noteq> []"
    and "fst (flush_buffers lib config env bufs d now_ms) = None"
    and "build_filename lib config (fst k) (snd k) now_ms = Inr p"
    and "outcome env (write_no d pre) p msgs = WriteOk"
    and "sole_writer lib config env now_ms bufs k"
  shows "files (snd (snd (flush_buffers lib config env bufs d now_ms))) (resolve env p)
           = Some (Complete msgs)
         \<and> count_list (opened (snd (snd (flush_buffers lib config env bufs d now_ms))))
             (resolve env p)
           = count_list (opened d) (resolve env p) + 1"
proof -
  from assms(1) have notin: "k \<notin> fst ` set pre" "k \<notin> fst ` set post"
    by (auto simp: assms(2))
  from flush_items_writes_entry[where st = "(bufs, d)" and env = env,
      OF notin assms(3) _ assms(5)] assms(2,4,6,7)
  show ?thesis by (simp add: flush_buffers_def)
qed

lemma flush_resets_reached_entry:
  assumes "bufs = pre @ (k, msgs) # post"
    and "msgs \<noteq> []"
    and "fst (flush_items lib config env now_ms (bufs, d) pre) = None"
    and "build_filename lib config (fst k) (snd k) now_ms = Inr p"
  shows "buf_lookup (fst (snd (flush_buffers lib config env bufs d now_ms))) k = Some []"
proof -
  obtain st1 where pre: "flush_items lib config env now_ms (bufs, d) pre = (None, st1)"
    using assms(3) by (cases "flush_items lib config env now_ms (bufs, d) pre") auto
  have item: "flush_item lib config env now_ms st1 (k, msgs)
          = Inr (buf_assign (fst st1) k [], write_file env (snd st1) p msgs)"
    using flush_item_writes[of "(k, msgs)" lib config now_ms p env st1] assms(2,4) by simp
  have whole: "flush_items lib config env now_ms (bufs, d) (pre @ (k, msgs) # post)
       = flush_items lib config env now_ms
           (buf_assign (fst st1) k [], write_file env (snd st1) p msgs) post"
    by (simp add: flush_items_append pre item)
  have "buf_lookup (fst (buf_assign (fst st1) k [], write_file env (snd st1) p msgs)) k = Some []"
    by (simp add: buf_lookup_assign)
  from flush_keeps_reset[OF this, of lib config env now_ms post] whole
  have "buf_lookup (fst (snd (flush_items lib config env now_ms (bufs, d)
                 (pre @ (k, msgs) # post)))) k = Some []"
    by simp
  then show ?thesis
    unfolding flush_buffers_def using assms(1) by simp
qed

text \<open>
  C1 as stated fails: when \<^verbatim>\<open>open\<close> raises for the only buffered key, the flush returns
  with no file written and the key's list empty; the buffered payload is gone.
\<close>

theorem failed_write_discards_buffer_example:
  "buf_lookup one_trade (JStr ''BTC-USDT'', JStr ''trades'') = Some [trade_payload]
   \<and> flush_buffers example_lib example_writer_config open_raises one_trade empty_disk
        1704067200000
       = (None, [((JStr ''BTC-USDT'', JStr ''trades''), [])],
          \<lparr>files = Map.empty, opened = [], write_count = 1\<rparr>)"
  by (simp add: one_trade_def flush_buffers_def flush_item_def write_file_def same_key_def
      build_filename_def example_lib_def open_raises_def empty_disk_def)

text \<open>
  C1, amended. If a flush gets as far as the write of the list of a key and that write
  (\<^verbatim>\<open>open\<close> or \<^verbatim>\<open>json.dump\<close>) raises, the key's in-memory list is reset to empty all the
  same (the \<^verbatim>\<open>finally\<close> clause runs on every path through the \<^verbatim>\<open>try\<close>): the buffered
  payloads are discarded, not kept for the next cycle. \<open>pre\<close> are the entries of the
  snapshot before the key's: the flush gets to the key's write when the iterations for
  \<open>pre\<close> do not raise and the file name of the key can be built, and \<open>write_no d pre\<close> is
  then the number of the key's write.
\<close>

theorem failed_write_still_clears_buffer:
  assumes "bufs = pre @ (k, msgs) # post"
    and "msgs \<noteq> []"
    and "fst (flush_items lib config env now_ms (bufs, d) pre) = None"
    and "build_filename lib config (fst k) (snd k) now_ms = Inr p"
    and "outcome env (write_no d pre) p msgs \<noteq> WriteOk"
  shows "buf_lookup (fst (snd (flush_buffers lib config env bufs d now_ms))) k = Some []"
  using assms(1,2,3,4) by (rule flush_resets_reached_entry)

text \<open>The single buffered key, with \<^verbatim>\<open>json.dump\<close> raising.\<close>

theorem failed_write_still_clears_buffer_witness:
  "one_trade = [] @ ((JStr ''BTC-USDT'', JStr ''trades''), [trade_payload]) # []
   \<and> fst (flush_items example_lib example_writer_config dump_raises 1704067200000
          (one_trade, empty_disk) []) = None
   \<and> build_filename example_lib example_writer_config (JStr ''BTC-USDT'') (JStr ''trades'')
        1704067200000 = Inr ''./okx_out/realtime/BTC-USDT_trades_20240101T000000.json''
   \<and> outcome dump_raises (write_no empty_disk [])
        ''./okx_out/realtime/BTC-USDT_trades_20240101T000000.json'' [trade_payload] \<noteq> WriteOk
   \<and> buf_lookup (fst (snd (flush_buffers example_lib example_writer_config dump_raises one_trade
        empty_disk 1704067200000))) (JStr ''BTC-USDT'', JStr ''trades'') = Some []"
proof -
  let ?k = "(JStr ''BTC-USDT'', JStr ''trades'')"
  let ?p = "''./okx_out/realtime/BTC-USDT_trades_20240101T000000.json''"
  have s: "one_trade = [] @ (?k, [trade_payload]) # []" by (simp add: one_trade_def)
  have n: "[trade_payload] \<noteq> []" by simp
  have p: "build_filename example_lib example_writer_config (fst ?k) (snd ?k) 1704067200000
             = Inr ?p"
    by (simp add: build_filename_def path_join_def example_lib_def example_writer_config_def)
  have r: "fst (flush_items example_lib example_writer_config dump_raises 1704067200000
          (one_trade, empty_disk) []) = None"
    by simp
  have f: "outcome dump_raises (write_no empty_disk []) ?p [trade_payload] \<noteq> WriteOk"
    by (simp add: dump_raises_def)
  from failed_write_still_clears_buffer[OF s n r p f] s r p f show ?thesis
    by simp
qed

text \<open>
  C5 as stated fails. Both keys of \<open>colliding\<close> hold one payload and every write succeeds,
  yet both are written to the same path: the file ends up with the payload of the second
  key, and no file holds the list of the first. And when the write fails, as for the
  single key of \<open>one_trade\<close> with \<^verbatim>\<open>open\<close> raising, no file is written at all.
\<close>

theorem colliding_names_lose_a_buffer:
  "buf_lookup colliding (JStr ''a_b'', JStr ''c'')
     = Some [build_payload (JStr ''a_b'') (JStr ''c'') ''2024-01-01T00:00:00Z'' (JArr [JInt 1]) JNull]
   \<and> build_filename example_lib example_writer_config (JStr ''a_b'') (JStr ''c'') 1704067200000
     = Inr ''./okx_out/realtime/a_b_c_20240101T000000.json''
   \<and> fst (flush_buffers example_lib example_writer_config all_ok colliding empty_disk
            1704067200000) = None
   \<and> files (snd (snd (flush_buffers example_lib example_writer_config all_ok colliding
               empty_disk 1704067200000)))
         ''./okx_out/realtime/a_b_c_20240101T000000.json''
     = Some (Complete
         [build_payload (JStr ''a'') (JStr ''b_c'') ''2024-01-01T00:00:01Z'' (JArr [JInt 2]) JNull])
   \<and> files (snd (snd (flush_buffers example_lib example_writer_config all_ok colliding
               empty_disk 1704067200000)))
         ''./okx_out/realtime/a_b_c_20240101T000000.json''
     \<noteq> Some (Complete
         [build_payload (JStr ''a_b'') (JStr ''c'') ''2024-01-01T00:00:00Z'' (JArr [JInt 1]) JNull])
   \<and> opened (snd (snd (flush_buffers example_lib example_writer_config all_ok colliding
               empty_disk 1704067200000)))
     = [''./okx_out/realtime/a_b_c_20240101T000000.json'',
        ''./okx_out/realtime/a_b_c_20240101T000000.json'']
   \<and> files (snd (snd (flush_buffers example_lib example_writer_config open_raises one_trade
               empty_disk 1704067200000)))
         ''./okx_out/realtime/BTC-USDT_trades_20240101T000000.json''
     = None"
  by (simp add: colliding_def one_trade_def flush_buffers_def flush_item_def write_file_def
      same_key_def build_filename_def path_join_def example_lib_def
      example_writer_config_def empty_disk_def build_payload_def all_ok_def open_raises_def)

text \<open>
  C5, amended. In a Buffer Store (a dict: no key occurs twice) and a flush that runs to
  its end, for a key \<open>k\<close> with a non-empty list \<open>msgs\<close> at flush time, whose write succeeds
  and whose file is written for no other key with a non-empty list (be it under the same
  name or under another name of the same file): after the flush the file holds exactly
  \<open>msgs\<close>, the flush has opened it exactly once, and the in-memory list of \<open>k\<close> is empty.
  \<open>pre\<close> are the entries of the snapshot before the key's, so that \<open>write_no d pre\<close> is
  the number of the key's write.
\<close>

theorem flush_writes_one_file_per_key:
  assumes "distinct (map fst bufs)"
    and "bufs = pre @ (k, msgs) # post"
    and "msgs \<noteq> []"
    and "fst (flush_buffers lib config env bufs d now_ms) = None"
    and "build_filename lib config (fst k) (snd k) now_ms = Inr p"
    and "outcome env (write_no d pre) p msgs = WriteOk"
    and "sole_writer lib config env now_ms bufs k"
  shows "files (snd (snd (flush_buffers lib config env bufs d now_ms))) (resolve env p)
           = Some (Complete msgs)
         \<and> count_list (opened (snd (snd (flush_buffers lib config env bufs d now_ms))))
             (resolve env p)
           = count_list (opened d) (resolve env p) + 1
         \<and> buf_lookup (fst (snd (flush_buffers lib config env bufs d now_ms))) k = Some []"
  using flush_writes_entry[OF assms] flush_resets_entry[OF assms(2,3,4)] by simp

text \<open>The single buffered key, with every write succeeding.\<close>

theorem flush_writes_one_file_per_key_witness:
  "distinct (map fst one_trade)
   \<and> one_trade = [] @ ((JStr ''BTC-USDT'', JStr ''trades''), [trade_payload]) # []
   \<and> fst (flush_buffers example_lib example_writer_config all_ok one_trade empty_disk
          1704067200000) = None
   \<and> build_filename example_lib example_writer_config (JStr ''BTC-USDT'') (JStr ''trades'')
        1704067200000 = Inr ''./okx_out/realtime/BTC-USDT_trades_20240101T000000.json''
   \<and> sole_writer example_lib example_writer_config all_ok 1704067200000 one_trade
        (JStr ''BTC-USDT'', JStr ''trades'')
   \<and> files (snd (snd (flush_buffers example_lib example_writer_config all_ok one_trade
               empty_disk 1704067200000)))
         ''./okx_out/realtime/BTC-USDT_trades_20240101T000000.json''
       = Some (Complete [trade_payload])
   \<and> count_list (opened (snd (snd (flush_buffers example_lib example_writer_config all_ok
               one_trade empty_disk 1704067200000))))
         ''./okx_out/realtime/BTC-USDT_trades_20240101T000000.json'' = 1
   \<and> buf_lookup (fst (snd (flush_buffers example_lib example_writer_config all_ok one_trade
               empty_disk 1704067200000))) (JStr ''BTC-USDT'', JStr ''trades'') = Some []"
proof -
  let ?k = "(JStr ''BTC-USDT'', JStr ''trades'')"
  let ?p = "''./okx_out/realtime/BTC-USDT_trades_20240101T000000.json''"
  have d: "distinct (map fst one_trade)" by (simp add: one_trade_def)
  have s: "one_trade = [] @ (?k, [trade_payload]) # []" by (simp add: one_trade_def)
  have n: "[trade_payload] \<noteq> []" by simp
  have p: "build_filename example_lib example_writer_config (fst ?k) (snd ?k) 1704067200000
             = Inr ?p"
    by (simp add: build_filename_def path_join_def example_lib_def example_writer_config_def)
  have r: "fst (flush_buffers example_lib example_writer_config all_ok one_trade empty_disk
          1704067200000) = None"
    using p by (simp add: one_trade_def flush_buffers_def flush_item_def)
  have ok: "outcome all_ok (write_no empty_disk []) ?p [trade_payload] = WriteOk"
    by (simp add: all_ok_def)
  have c: "sole_writer example_lib example_writer_config all_ok 1704067200000 one_trade ?k"
    by (simp add: sole_writer_def one_trade_def)
  have res: "resolve all_ok ?p = ?p" by (simp add: all_ok_def)
  from flush_writes_one_file_per_key[OF d s n r p ok c] d s r p c
  show ?thesis
    by (simp add: res empty_disk_def)
qed

section \<open>Properties of the Message Classifier\<close>

lemma incomplete_object_dropped:
  assumes "hashable (dict_get kvs ''event'')"
    and "\<not> truthy (dict_get kvs ''arg'') \<or> \<not> truthy (dict_get kvs ''data'')"
  shows "handle_message bufs ts (Some (JObj kvs)) = Inr bufs"
proof (cases "\<exists>e \<in> set control_events. py_eq (dict_get kvs ''event'') (JStr e)")
  case True
  with assms(1) have "in_control_events (dict_get kvs ''event'') = Inr True"
    by (simp add: in_control_events_def)
  then show ?thesis by (rule handle_control)
next
  case False
  with assms(1) have "in_control_events (dict_get kvs ''event'') = Inr False"
    by (simp add: in_control_events_def)
  then show ?thesis using assms(2) by (rule handle_incomplete)
qed




lemma buf_assign_present:
  "buf_lookup bufs k = Some old \<Longrightarrow> \<exists>k'. same_key k' k \<and> (k', v) \<in> set (buf_assign bufs k v)"
  by (induction bufs k rule: buf_lookup.induct) (auto split: if_splits)

text \<open>
  C9. A frame that parses to an object whose \<^verbatim>\<open>event\<close> is \<^verbatim>\<open>pong\<close>, \<^verbatim>\<open>subscribe\<close> or
  \<^verbatim>\<open>error\<close> is handled without an exception and leaves the Buffer Store exactly as it
  was, whatever else the object holds (\<^verbatim>\<open>arg\<close> and \<^verbatim>\<open>data\<close> included).
\<close>

theorem control_frames_append_nothing:
  assumes "map_of kvs ''event'' = Some (JStr e)"
    and "e \<in> set control_events"
  shows "handle_message bufs ts (Some (JObj kvs)) = Inr bufs"
  using assms by (simp add: handle_control dict_get_def in_control_events_def)

text \<open>An acknowledgement that also carries \<^verbatim>\<open>arg\<close> and \<^verbatim>\<open>data\<close> of a subscribed key.\<close>

theorem control_frames_append_nothing_witness:
  "''subscribe'' \<in> set control_events
   \<and> handle_message one_trade ''2024-01-01T00:00:05Z'' (Some ack_frame) = Inr one_trade"
proof -
  have m: "map_of [(''event'', JStr ''subscribe''),
           (''arg'', JObj [(''channel'', JStr ''trades''), (''instId'', JStr ''BTC-USDT'')]),
           (''data'', JArr [JObj [(''px'', JStr ''42000'')]])] ''event'' = Some (JStr ''subscribe'')"
    by simp
  have c: "''subscribe'' \<in> set control_events"
    by (simp add: control_events_def)
  from control_frames_append_nothing[OF m c] c show ?thesis
    by (simp add: ack_frame_def)
qed

text \<open>
  C7 as stated fails: the payload appended for a trade frame has the \<^verbatim>\<open>source\<close> field
  \<^verbatim>\<open>"WS"\<close>, not \<^verbatim>\<open>"stream"\<close>.
\<close>

theorem stream_envelope_source_is_WS_example:
  "handle_message [] ''2024-01-01T00:00:00Z'' (Some trade_frame) = Inr one_trade
   \<and> py_get trade_payload ''source'' = Inr (JStr ''WS'')
   \<and> py_get trade_payload ''source'' \<noteq> Inr (JStr ''stream'')"
  by (simp add: handle_message_def trade_frame_def one_trade_def trade_payload_def dict_get_def
      in_control_events_def key_hashable_def buf_append_def build_payload_def)

text \<open>
  C7, amended. Every payload that handling a frame adds to the Buffer Store (one that is
  in the store afterwards and was not before) has its \<^verbatim>\<open>source\<close> field equal to the
  string \<^verbatim>\<open>"WS"\<close>.
\<close>

theorem appended_envelope_source_is_WS:
  assumes "handle_message bufs ts loaded = Inr bufs'"
    and "p \<in> payloads bufs'"
    and "p \<notin> payloads bufs"
  shows "py_get p ''source'' = Inr (JStr ''WS'')"
proof -
  from handle_message_result[OF assms(1)] assms(2,3)
  obtain inst chan data action where
    ap: "buf_append (if buf_lookup bufs (inst, chan) = None
                     then buf_assign bufs (inst, chan) [] else bufs)
           (inst, chan) (build_payload inst chan ts data action) = Inr bufs'"
    by auto
  have "payloads (if buf_lookup bufs (inst, chan) = None
                  then buf_assign bufs (inst, chan) [] else bufs) \<subseteq> payloads bufs"
    using payloads_assign[of bufs "(inst, chan)" "[]"] by auto
  with payloads_append[OF ap] assms(2,3)
  have "p = build_payload inst chan ts data action" by auto
  then show ?thesis by (simp add: source_of_payload)
qed

text \<open>The trade frame, handled on an empty store.\<close>

theorem appended_envelope_source_is_WS_witness:
  "handle_message [] ''2024-01-01T00:00:00Z'' (Some trade_frame) = Inr one_trade
   \<and> trade_payload \<in> payloads one_trade
   \<and> trade_payload \<notin> payloads []
   \<and> py_get trade_payload ''source'' = Inr (JStr ''WS'')"
proof -
  have h: "handle_message [] ''2024-01-01T00:00:00Z'' (Some trade_frame) = Inr one_trade"
    by (simp add: handle_message_def trade_frame_def one_trade_def trade_payload_def dict_get_def
        in_control_events_def key_hashable_def buf_append_def)
  have i: "trade_payload \<in> payloads one_trade" by (simp add: one_trade_def)
  have n: "trade_payload \<notin> payloads []" by simp
  from appended_envelope_source_is_WS[OF h i n] h i n show ?thesis by simp
qed

text \<open>
  C4 (the code departs from the claim). A frame that is valid JSON but not an object, such
  as \<^verbatim>\<open>[]\<close>, has neither \<^verbatim>\<open>arg\<close> nor \<^verbatim>\<open>data\<close>; \<^verbatim>\<open>msg.get("arg")\<close> raises
  \<^verbatim>\<open>AttributeError\<close> on it. So does the membership test on an object whose \<^verbatim>\<open>event\<close> is
  a list or an object, with \<^verbatim>\<open>TypeError\<close>. The exception leaves \<^verbatim>\<open>_handle_message\<close> and
  the receive loop. If the keepalive task has ended, the reconnect loop treats it as a
  failed attempt: printed, and followed by a backoff sleep. If the keepalive task is
  pending, \<^verbatim>\<open>CancelledError\<close> takes its place and ends \<^verbatim>\<open>run_forever\<close>.
\<close>

theorem non_object_frame_raises:
  "handle_message bufs ts (Some (JArr [])) = Inl AttributeError
   \<and> handle_message bufs ts (Some (JObj [(''event'', JArr [])])) = Inl TypeError
   \<and> tracebacks (run_forever default_client_config [btc_trades] bufs
                   [Streams [(ts, Some (JArr []))] CleanClose PingEnded]) = [AttributeError]
   \<and> sleeps (run_forever default_client_config [btc_trades] bufs
                   [Streams [(ts, Some (JArr []))] CleanClose PingEnded]) = [1]
   \<and> raised (run_forever default_client_config [btc_trades] bufs
                   [Streams [(ts, Some (JArr []))] CleanClose PingPending])
       = Some CancelledError"
  by (simp add: handle_non_dict handle_unhashable_event dict_get_def run_forever_def
      connect_once_def btc_trades_def default_client_config_def)

text \<open>The frame \<^verbatim>\<open>[]\<close> arriving while one trade is buffered.\<close>

theorem non_object_frame_raises_witness:
  "handle_message one_trade ''2024-01-01T00:00:05Z'' (Some (JArr [])) = Inl AttributeError
   \<and> tracebacks (run_forever default_client_config [btc_trades] one_trade
                   [Streams [(''2024-01-01T00:00:05Z'', Some (JArr []))] CleanClose PingEnded])
       = [AttributeError]
   \<and> sleeps (run_forever default_client_config [btc_trades] one_trade
                   [Streams [(''2024-01-01T00:00:05Z'', Some (JArr []))] CleanClose PingEnded])
       = [1]"
  using non_object_frame_raises[of one_trade "''2024-01-01T00:00:05Z''"] by simp






section \<open>Properties of the poll loop\<close>





end
